theory Spec2Isabelle
  imports Main "HOL-Library.Option_ord" "HOL-Library.Multiset"
begin

section \<open>Chord inference of guess_chords.py\<close>

text \<open>
  The module is pure: every function maps its argument to a value or raises. A Python
  value that is either an integer or \<^verbatim>\<open>None\<close> is an \<open>int option\<close>; an uncaught exception
  is the left summand of \<open>error + 'a\<close>. Strings are \<open>string\<close>, dictionaries are
  association lists in declaration order (Python dictionaries iterate in insertion
  order, and no literal below repeats a key).
\<close>

datatype error = TypeError

subsection \<open>Pitch model\<close>

definition enharmonic_map :: "(string \<times> string) list" where
  "enharmonic_map =
     [(''A#'', ''Bb''), (''Bb'', ''A#''),
      (''C#'', ''Db''), (''Db'', ''C#''),
      (''D#'', ''Eb''), (''Eb'', ''D#''),
      (''F#'', ''Gb''), (''Gb'', ''F#''),
      (''G#'', ''Ab''), (''Ab'', ''G#'')]"

text \<open>\<^verbatim>\<open>enharmonic_map.get(note, note)\<close>\<close>

definition normalize_note :: "string \<Rightarrow> string" where
  "normalize_note note =
     (case map_of enharmonic_map note of Some v \<Rightarrow> v | None \<Rightarrow> note)"

definition semitone_map :: "(string \<times> int) list" where
  "semitone_map =
     [(''C'', 0), (''C#'', 1), (''D'', 2), (''D#'', 3), (''E'', 4), (''F'', 5),
      (''F#'', 6), (''G'', 7), (''G#'', 8), (''A'', 9), (''A#'', 10), (''B'', 11)]"

text \<open>\<^verbatim>\<open>semitone_map.get(normalize_note(note))\<close>: \<^verbatim>\<open>None\<close> for a missing key.\<close>

definition note_to_semitone :: "string \<Rightarrow> int option" where
  "note_to_semitone note = map_of semitone_map (normalize_note note)"

definition canonical_notes :: "string list" where
  "canonical_notes =
     [''C'', ''C#'', ''D'', ''D#'', ''E'', ''F'', ''F#'', ''G'', ''G#'', ''A'', ''A#'', ''B'']"

text \<open>
  \<^verbatim>\<open>notes[semitone % 12]\<close>. Python's \<^verbatim>\<open>%\<close> with a positive divisor is HOL's \<open>mod\<close> on
  \<open>int\<close>, so the index is in range; \<^verbatim>\<open>None % 12\<close> raises \<^verbatim>\<open>TypeError\<close>.
\<close>

fun semitone_to_note :: "int option \<Rightarrow> error + string" where
  "semitone_to_note (Some semitone) = Inr (canonical_notes ! nat (semitone mod 12))"
| "semitone_to_note None = Inl TypeError"

subsection \<open>Pattern catalog\<close>

definition chord_intervals :: "(string \<times> int list) list" where
  "chord_intervals =
     [(''Major'', [0, 4, 7]),
      (''minor'', [0, 3, 7]),
      (''Dim'', [0, 3, 6]),
      (''Aug'', [0, 4, 8]),
      (''Maj7'', [0, 4, 7, 11]),
      (''m7'', [0, 3, 7, 10]),
      (''7'', [0, 4, 7, 10]),
      (''Dim7'', [0, 3, 6, 9]),
      (''Sus2'', [0, 2, 7]),
      (''Sus4'', [0, 5, 7]),
      (''6'', [0, 4, 7, 9]),
      (''m6'', [0, 3, 7, 9]),
      (''9'', [0, 4, 7, 10, 14]),
      (''m9'', [0, 3, 7, 10, 14]),
      (''Maj9'', [0, 4, 7, 11, 14])]"

subsection \<open>Inference engine\<close>

text \<open>\<^verbatim>\<open>note.split('(')[0]\<close>: the text before the first opening parenthesis.\<close>

definition clean_note :: "string \<Rightarrow> string" where
  "clean_note note = takeWhile (\<lambda>c. c \<noteq> CHR ''('') note"

text \<open>
  \<^verbatim>\<open>sorted(set(vs))\<close> on values that are integers or \<^verbatim>\<open>None\<close>. The set keeps one copy of
  each value. Sorting at most one element compares nothing; sorting two or more compares
  every element with another one, and comparing \<^verbatim>\<open>None\<close> with an integer raises
  \<^verbatim>\<open>TypeError\<close>. Without \<^verbatim>\<open>None\<close> the order of \<open>int option\<close> is the order of the integers.
\<close>

definition sorted_set :: "int option list \<Rightarrow> error + int option list" where
  "sorted_set vs =
     (let s = remdups vs in
      if length s \<le> 1 then Inr s
      else if None \<in> set s then Inl TypeError
      else Inr (sort s))"

text \<open>\<^verbatim>\<open>(s - root_semitone) % 12\<close>; subtraction with a \<^verbatim>\<open>None\<close> operand raises.\<close>

fun sub_mod12 :: "int option \<Rightarrow> int option \<Rightarrow> error + int" where
  "sub_mod12 (Some s) (Some r) = Inr ((s - r) mod 12)"
| "sub_mod12 _ _ = Inl TypeError"

text \<open>Evaluating a generator left to right: the first exception ends it.\<close>

fun collect :: "(error + 'a) list \<Rightarrow> error + 'a list" where
  "collect [] = Inr []"
| "collect (Inl e # rs) = Inl e"
| "collect (Inr v # rs) = (case collect rs of Inl e \<Rightarrow> Inl e | Inr vs \<Rightarrow> Inr (v # vs))"

text \<open>\<^verbatim>\<open>sorted((s - root_semitone) % 12 for s in semitones)\<close>\<close>

definition intervals_from :: "int option \<Rightarrow> int option list \<Rightarrow> error + int list" where
  "intervals_from root_semitone semitones =
     (case collect (map (\<lambda>s. sub_mod12 s root_semitone) semitones) of
        Inl e \<Rightarrow> Inl e
      | Inr ds \<Rightarrow> Inr (sort ds))"

text \<open>
  The inner loop over \<^verbatim>\<open>chord_intervals.items()\<close>: the chord type of the first pattern
  with \<^verbatim>\<open>len(intervals) >= 3 and intervals == pattern[:len(intervals)]\<close>.
\<close>

fun match_pattern :: "int list \<Rightarrow> (string \<times> int list) list \<Rightarrow> string option" where
  "match_pattern intervals [] = None"
| "match_pattern intervals ((chord_type, pattern) # rest) =
     (if length intervals \<ge> 3 \<and> intervals = take (length intervals) pattern
      then Some chord_type
      else match_pattern intervals rest)"

text \<open>
  The outer loop \<^verbatim>\<open>for root_semitone in semitones\<close>; \<open>Inr None\<close> when the loop ends
  without a \<^verbatim>\<open>return\<close>.
\<close>

fun try_roots :: "int option list \<Rightarrow> int option list \<Rightarrow> error + string option" where
  "try_roots semitones [] = Inr None"
| "try_roots semitones (root_semitone # roots) =
     (case intervals_from root_semitone semitones of
        Inl e \<Rightarrow> Inl e
      | Inr intervals \<Rightarrow>
         (case match_pattern intervals chord_intervals of
            Some chord_type \<Rightarrow>
              (case semitone_to_note root_semitone of
                 Inl e \<Rightarrow> Inl e
               | Inr root_note \<Rightarrow> Inr (Some (root_note @ '' '' @ chord_type)))
          | None \<Rightarrow> try_roots semitones roots))"

text \<open>The two-note special cases after the loop.\<close>

definition special_cases :: "int option list \<Rightarrow> error + string" where
  "special_cases semitones =
     (if length semitones = 2 then
        (case sub_mod12 (semitones ! 1) (semitones ! 0) of
           Inl e \<Rightarrow> Inl e
         | Inr interval \<Rightarrow>
            (case semitone_to_note (semitones ! 0) of
               Inl e \<Rightarrow> Inl e
             | Inr root_note \<Rightarrow>
                 if interval = 7 then Inr (root_note @ '' 5'')
                 else if interval = 4 then Inr (root_note @ '' (no fifth)'')
                 else if interval = 3 then Inr (root_note @ '' Minor (no fifth)'')
                 else Inr ''Unknown''))
      else Inr ''Unknown'')"

text \<open>
  Only the conversion to semitones is inside \<^verbatim>\<open>try\<close>; its handler returns
  \<^verbatim>\<open>"Unknown"\<close>. An exception of the root loop or of the special cases is not caught.
\<close>

definition calculate_intervals :: "string list \<Rightarrow> error + string" where
  "calculate_intervals notes =
     (if notes = [] then Inr ''Unknown''
      else
        let cleaned_notes = map clean_note notes in
        case sorted_set (map note_to_semitone cleaned_notes) of
          Inl e \<Rightarrow> Inr ''Unknown''
        | Inr semitones \<Rightarrow>
           (case try_roots semitones semitones of
              Inl e \<Rightarrow> Inl e
            | Inr (Some label) \<Rightarrow> Inr label
            | Inr None \<Rightarrow> special_cases semitones))"

definition guess_chord :: "string list \<Rightarrow> error + string" where
  "guess_chord notes =
     (if notes = [] then Inr ''Unknown''
      else if length notes = 1 then Inr (notes ! 0 @ '' (single note)'')
      else calculate_intervals notes)"

subsection \<open>The matching rule in the specification's words\<close>

text \<open>
  The interval signature of a pitch set \<open>S\<close> relative to a root \<open>r\<close>: the offsets
  \<open>(s - r) mod 12\<close> for \<open>s\<close> in \<open>S\<close>, sorted ascending.
\<close>

definition signature :: "int list \<Rightarrow> int \<Rightarrow> int list" where
  "signature S r = sort (map (\<lambda>s. (s - r) mod 12) S)"

text \<open>
  The first pair of a root and a catalog entry, roots in the order of \<open>S\<close> and for each
  root the entries in declaration order, whose interval list truncated to the length
  of the signature equals the signature.
\<close>

definition first_match :: "int list \<Rightarrow> (int \<times> string \<times> int list) option" where
  "first_match S =
     find (\<lambda>(r, chord_type, pattern). take (length (signature S r)) pattern = signature S r)
       (List.product S chord_intervals)"

text \<open>The chord types declared before the three ninth chords.\<close>

definition early_types :: "string list" where
  "early_types = map fst (take 12 chord_intervals)"

section \<open>Auxiliary facts\<close>

lemma sort_short: "length xs \<le> 1 \<Longrightarrow> sort xs = xs"
  by (cases xs) auto

text \<open>The outcome of \<open>sorted_set\<close> depends on the set of values only.\<close>

lemma sorted_set_by_set:
  "sorted_set vs =
     (if card (set vs) \<le> 1 then Inr (sorted_list_of_set (set vs))
      else if None \<in> set vs then Inl TypeError
      else Inr (sorted_list_of_set (set vs)))"
proof -
  have len: "length (remdups vs) = card (set vs)"
    by (simp add: length_remdups_card_conv)
  have srt: "sort (remdups vs) = sorted_list_of_set (set vs)"
    by (simp add: sorted_list_of_set_sort_remdups)
  show ?thesis
  proof (cases "card (set vs) \<le> 1")
    case True
    with len have "sort (remdups vs) = remdups vs" by (simp add: sort_short)
    with True len srt show ?thesis by (simp add: sorted_set_def)
  next
    case False
    with len srt show ?thesis by (simp add: sorted_set_def Let_def)
  qed
qed

lemma sorted_set_cong: "set vs = set ws \<Longrightarrow> sorted_set vs = sorted_set ws"
  by (simp add: sorted_set_by_set)

lemma calculate_intervals_cong:
  assumes "set p = set q"
  shows "calculate_intervals p = calculate_intervals q"
proof -
  from assms have e: "p = [] \<longleftrightarrow> q = []" by auto
  from assms have "set (map note_to_semitone (map clean_note p)) =
      set (map note_to_semitone (map clean_note q))"
    by simp
  then have "sorted_set (map note_to_semitone (map clean_note p)) =
      sorted_set (map note_to_semitone (map clean_note q))"
    by (rule sorted_set_cong)
  with e show ?thesis by (simp add: calculate_intervals_def)
qed

text \<open>When every token converts, the semitones are the sorted distinct integers.\<close>

lemma sort_remdups_Some:
  "sort (remdups (map Some ints)) = map Some (sort (remdups (ints :: int list)))"
proof (rule sorted_distinct_set_unique)
  show "sorted (sort (remdups (map Some ints)))" by simp
  show "distinct (sort (remdups (map Some ints)))" by simp
  show "sorted (map Some (sort (remdups ints)))"
    by (simp add: sorted_map)
  show "distinct (map Some (sort (remdups ints)))"
    by (simp add: distinct_map)
  show "set (sort (remdups (map Some ints))) = set (map Some (sort (remdups ints)))"
    by simp
qed

lemma sorted_set_Some:
  "sorted_set (map Some ints) = Inr (map Some (sort (remdups ints)))"
proof (cases "length (remdups (map Some ints)) \<le> 1")
  case True
  then have "remdups (map Some ints) = sort (remdups (map Some ints))"
    by (simp add: sort_short)
  with True show ?thesis
    by (simp add: sorted_set_def sort_remdups_Some)
next
  case False
  then show ?thesis
    by (auto simp: sorted_set_def Let_def sort_remdups_Some)
qed

lemma collect_Inr: "collect (map (\<lambda>x. Inr (f x)) xs) = Inr (map f xs)"
  by (induction xs) auto

lemma intervals_from_Some:
  "intervals_from (Some r) (map Some S) = Inr (signature S r)"
  by (simp add: intervals_from_def signature_def collect_Inr comp_def)

lemma length_signature: "length (signature S r) = length S"
  by (simp add: signature_def)

lemma find_append_case:
  "find P (xs @ ys) = (case find P xs of None \<Rightarrow> find P ys | Some x \<Rightarrow> Some x)"
  by (induction xs) auto

lemma find_map_Pair:
  "find (\<lambda>(r, e). P r e) (map (Pair r) cat) = map_option (Pair r) (find (P r) cat)"
  by (induction cat) auto

lemma match_pattern_find:
  "3 \<le> length xs \<Longrightarrow>
   match_pattern xs cat = map_option fst (find (\<lambda>(t, p). take (length xs) p = xs) cat)"
  by (induction cat) auto

lemma match_pattern_short: "length intervals < 3 \<Longrightarrow> match_pattern intervals cat = None"
  by (induction cat) auto

lemma try_roots_short:
  "length S < 3 \<Longrightarrow> try_roots (map Some S) (map Some R) = Inr None"
  by (induction R) (simp_all add: intervals_from_Some match_pattern_short length_signature)

lemma try_roots_first_match:
  assumes "3 \<le> length S"
  shows "try_roots (map Some S) (map Some R) =
     Inr (case find (\<lambda>(r, chord_type, pattern).
                   take (length (signature S r)) pattern = signature S r)
                (List.product R chord_intervals) of
            None \<Rightarrow> None
          | Some (r, chord_type, pattern) \<Rightarrow>
              Some (canonical_notes ! nat (r mod 12) @ '' '' @ chord_type))"
proof (induction R)
  case Nil
  show ?case by simp
next
  case (Cons r R)
  let ?P = "\<lambda>r (chord_type, pattern). take (length (signature S r)) pattern = signature S r"
  from assms have len: "3 \<le> length (signature S r)" by (simp add: length_signature)
  show ?case
  proof (cases "find (?P r) chord_intervals")
    case None
    with len have "match_pattern (signature S r) chord_intervals = None"
      by (simp add: match_pattern_find)
    with None Cons show ?thesis
      by (simp add: intervals_from_Some find_append_case find_map_Pair)
  next
    case (Some e)
    obtain t p where e: "e = (t, p)" by (cases e)
    with Some len have "match_pattern (signature S r) chord_intervals = Some t"
      by (simp add: match_pattern_find)
    with Some e show ?thesis
      by (simp add: intervals_from_Some find_append_case find_map_Pair)
  qed
qed

text \<open>
  Every computed interval is below 12, so a pattern that holds 14 is matched only on a
  proper prefix, and that prefix is an earlier pattern of the catalog.
\<close>

lemma take_five:
  assumes "3 \<le> length xs" "xs = take (length xs) [a, b, c, d, e]"
  shows "xs = [a, b, c] \<or> xs = [a, b, c, d] \<or> xs = [a, b, c, d, e]"
proof -
  consider "length xs = 3" | "length xs = 4" | "5 \<le> length xs"
    using assms(1) by linarith
  then show ?thesis
  proof cases
    case 1
    with assms(2) have "xs = take 3 [a, b, c, d, e]" by simp
    then show ?thesis by (simp add: numeral_3_eq_3)
  next
    case 2
    with assms(2) have "xs = take 4 [a, b, c, d, e]" by simp
    then show ?thesis by (simp add: eval_nat_numeral)
  next
    case 3
    with assms(2) show ?thesis by simp
  qed
qed

lemma ninth_needs_earlier:
  assumes "3 \<le> length xs" "\<forall>x\<in>set xs. x < (12 :: int)"
    and "xs = take (length xs) [a, b, c, d, 14]"
  shows "xs = take (length xs) [a, b, c] \<or> xs = take (length xs) [a, b, c, d]"
proof -
  from take_five [OF assms(1) assms(3)]
  consider "xs = [a, b, c]" | "xs = [a, b, c, d]" | "xs = [a, b, c, d, 14]" by blast
  then show ?thesis
  proof cases
    case 1 then show ?thesis by simp
  next
    case 2 then show ?thesis by simp
  next
    case 3 with assms(2) show ?thesis by simp
  qed
qed

lemma match_pattern_None_iff:
  "match_pattern xs A = None \<longleftrightarrow>
     (\<forall>(t, p)\<in>set A. \<not> (3 \<le> length xs \<and> xs = take (length xs) p))"
  by (induction A) (auto split: if_splits)

lemma match_pattern_append:
  "match_pattern xs (A @ B) =
     (case match_pattern xs A of Some t \<Rightarrow> Some t | None \<Rightarrow> match_pattern xs B)"
  by (induction A) auto

lemma match_pattern_mem: "match_pattern xs A = Some t \<Longrightarrow> t \<in> set (map fst A)"
  by (induction A) (auto split: if_splits)

lemma ninths_shadowed:
  assumes bound: "\<forall>x\<in>set xs. x < (12 :: int)"
    and early: "match_pattern xs (take 12 chord_intervals) = None"
  shows "match_pattern xs (drop 12 chord_intervals) = None"
proof -
  have no: "\<not> (3 \<le> length xs \<and> xs = take (length xs) p)"
    if "(t, p) \<in> set (take 12 chord_intervals)" for t p
    using early that by (auto simp: match_pattern_None_iff)
  have e1: "(''Major'', [0, 4, 7]) \<in> set (take 12 chord_intervals)"
    and e2: "(''7'', [0, 4, 7, 10]) \<in> set (take 12 chord_intervals)"
    and e3: "(''minor'', [0, 3, 7]) \<in> set (take 12 chord_intervals)"
    and e4: "(''m7'', [0, 3, 7, 10]) \<in> set (take 12 chord_intervals)"
    and e5: "(''Maj7'', [0, 4, 7, 11]) \<in> set (take 12 chord_intervals)"
    by (simp_all add: chord_intervals_def)
  have n9: "\<not> (3 \<le> length xs \<and> xs = take (length xs) [0, 4, 7, 10, 14])"
    using ninth_needs_earlier [OF _ bound, of 0 4 7 10] no [OF e1] no [OF e2] by blast
  have nm9: "\<not> (3 \<le> length xs \<and> xs = take (length xs) [0, 3, 7, 10, 14])"
    using ninth_needs_earlier [OF _ bound, of 0 3 7 10] no [OF e3] no [OF e4] by blast
  have nM9: "\<not> (3 \<le> length xs \<and> xs = take (length xs) [0, 4, 7, 11, 14])"
    using ninth_needs_earlier [OF _ bound, of 0 4 7 11] no [OF e1] no [OF e5] by blast
  have d: "drop 12 chord_intervals =
      [(''9'', [0, 4, 7, 10, 14]), (''m9'', [0, 3, 7, 10, 14]), (''Maj9'', [0, 4, 7, 11, 14])]"
    by (simp add: chord_intervals_def)
  from n9 nm9 nM9 show ?thesis
    unfolding d by (simp only: match_pattern.simps if_False)
qed

lemma match_pattern_early:
  assumes "\<forall>x\<in>set xs. x < (12 :: int)"
    and "match_pattern xs chord_intervals = Some t"
  shows "t \<in> set early_types"
proof (cases "match_pattern xs (take 12 chord_intervals)")
  case None
  with assms(1) have "match_pattern xs (drop 12 chord_intervals) = None"
    by (rule ninths_shadowed)
  with None have "match_pattern xs (take 12 chord_intervals @ drop 12 chord_intervals) = None"
    by (simp only: match_pattern_append option.case)
  with assms(2) show ?thesis by simp
next
  case (Some u)
  then have "match_pattern xs (take 12 chord_intervals @ drop 12 chord_intervals) = Some u"
    by (simp only: match_pattern_append option.case)
  with assms(2) have "u = t" by simp
  with Some show ?thesis
    unfolding early_types_def by (auto dest: match_pattern_mem)
qed

lemma collect_sub_bound:
  "collect (map (\<lambda>s. sub_mod12 s r) sem) = Inr ds \<Longrightarrow> \<forall>d\<in>set ds. d < 12"
proof (induction sem arbitrary: ds)
  case Nil
  then show ?case by simp
next
  case (Cons s sem)
  then show ?case
    by (cases s; cases r) (auto split: sum.splits)
qed

lemma intervals_from_bound:
  "intervals_from r sem = Inr xs \<Longrightarrow> \<forall>x\<in>set xs. x < 12"
  by (auto simp: intervals_from_def split: sum.splits dest: collect_sub_bound)

lemma early_types_last: "t \<in> set early_types \<Longrightarrow> t \<noteq> [] \<and> last t \<noteq> CHR ''9''"
  by (auto simp: early_types_def chord_intervals_def)

lemma try_roots_label:
  "try_roots sem roots = Inr (Some label) \<Longrightarrow>
     \<exists>root_note t. label = root_note @ '' '' @ t \<and> t \<in> set early_types"
proof (induction roots)
  case Nil
  then show ?case by simp
next
  case (Cons r roots)
  then show ?case
    by (auto split: sum.splits option.splits
        dest!: intervals_from_bound dest: match_pattern_early)
qed

lemma special_cases_last:
  "special_cases sem = Inr s \<Longrightarrow> s \<noteq> [] \<and> last s \<noteq> CHR ''9''"
  by (auto simp: special_cases_def split: if_splits sum.splits)

lemma calculate_intervals_last:
  assumes "calculate_intervals notes = Inr s"
  shows "s \<noteq> [] \<and> last s \<noteq> CHR ''9''"
  using assms
  by (auto simp: calculate_intervals_def Let_def
      split: if_splits sum.splits option.splits
      dest!: try_roots_label special_cases_last early_types_last)

lemma guess_chord_last:
  assumes "guess_chord notes = Inr s"
  shows "s \<noteq> [] \<and> last s \<noteq> CHR ''9''"
  using assms
  by (auto simp: guess_chord_def split: if_splits dest: calculate_intervals_last)

section \<open>The claims\<close>

text \<open>
  C1. The claim: \<open>normalize_note\<close> maps a flat spelling to its sharp equivalent and returns
  every other string, sharp spellings included, unchanged. The table holds both
  directions of each pair, so the code sends the sharp spelling \<open>A#\<close> to the flat \<open>Bb\<close>.
\<close>

theorem normalize_note_sharp_to_flat:
  "normalize_note ''A#'' = ''Bb'' \<and> normalize_note ''A#'' \<noteq> ''A#''"
  by (simp add: normalize_note_def enharmonic_map_def)

text \<open>
  C2. The claim: for every canonical name \<open>n\<close>, \<open>note_to_semitone n\<close> is defined and
  \<open>semitone_to_note\<close> gives \<open>n\<close> back. For the canonical name \<open>C#\<close> the code looks up
  the normalized name \<open>Db\<close>, which is not a key: the result is \<^verbatim>\<open>None\<close>, and
  \<open>semitone_to_note\<close> of it raises.
\<close>

theorem note_to_semitone_sharp_undefined:
  "''C#'' \<in> set canonical_notes \<and> note_to_semitone ''C#'' = None \<and>
   semitone_to_note (note_to_semitone ''C#'') = Inl TypeError"
  by (simp add: note_to_semitone_def normalize_note_def enharmonic_map_def semitone_map_def
      canonical_notes_def)

text \<open>
  C3. The claim: \<open>guess_chord\<close> never raises. When no token of a list of two or more
  converts, the set of semitones is the single value \<^verbatim>\<open>None\<close>, sorting it compares
  nothing, and the subtraction in the root loop raises \<^verbatim>\<open>TypeError\<close> outside the
  \<^verbatim>\<open>try\<close> block.
\<close>

theorem guess_chord_raises_when_nothing_converts:
  "guess_chord [''X'', ''Y''] = Inl TypeError \<and> calculate_intervals [''X'', ''Y''] = Inl TypeError"
  by code_simp

text \<open>
  C4, as stated: the result is the same after inserting a duplicate of a pitch name
  already present. It fails for a one-element list, which takes the single-note branch
  while the list with the duplicate does not.
\<close>

theorem guess_chord_duplicate_counterexample:
  "guess_chord [''C''] = Inr ''C (single note)'' \<and> guess_chord [''C'', ''C''] = Inr ''Unknown'' \<and>
   guess_chord [''C'', ''C''] \<noteq> guess_chord [''C'']"
  by code_simp

text \<open>
  C4, amended: \<open>guess_chord\<close> has the same outcome on every permutation of a list, and
  on any two lists of at least two entries that hold the same pitch names, however
  often each is repeated.
\<close>

theorem guess_chord_order_duplicates:
  assumes "mset p = mset q \<or> (set p = set q \<and> 2 \<le> length p \<and> 2 \<le> length q)"
  shows "guess_chord p = guess_chord q"
  using assms
proof
  assume m: "mset p = mset q"
  then have s: "set p = set q" by (rule mset_eq_setD)
  from m have l: "length p = length q" by (rule mset_eq_length)
  show ?thesis
  proof (cases "length p = 1")
    case True
    with l obtain x y where "p = [x]" "q = [y]"
      by (metis One_nat_def length_0_conv length_Suc_conv)
    with s show ?thesis by simp
  next
    case False
    with l s show ?thesis
      by (auto simp: guess_chord_def dest: calculate_intervals_cong)
  qed
next
  assume "set p = set q \<and> 2 \<le> length p \<and> 2 \<le> length q"
  then show ?thesis
    by (auto simp: guess_chord_def dest: calculate_intervals_cong)
qed

theorem guess_chord_order_duplicates_witness:
  "guess_chord [''C'', ''E'', ''G''] = guess_chord [''E'', ''C'', ''G'', ''C''] \<and>
   guess_chord [''C'', ''E'', ''G''] = guess_chord [''G'', ''E'', ''C'']"
proof -
  have a: "guess_chord [''C'', ''E'', ''G''] = guess_chord [''E'', ''C'', ''G'', ''C'']"
    by (rule guess_chord_order_duplicates) auto
  have b: "guess_chord [''C'', ''E'', ''G''] = guess_chord [''G'', ''E'', ''C'']"
    by (rule guess_chord_order_duplicates) simp
  from a b show ?thesis by simp
qed

text \<open>
  C5, as stated: a token that does not convert forces \<open>Unknown\<close> whatever the length of
  the list. A one-element list is returned as a single note without being converted.
\<close>

theorem unparseable_single_counterexample:
  "note_to_semitone (clean_note ''Zzz'') = None \<and>
   guess_chord [''Zzz''] = Inr ''Zzz (single note)'' \<and>
   guess_chord [''Zzz''] \<noteq> Inr ''Unknown''"
  by code_simp

text \<open>
  C5, amended: for every input list that holds a token that does not convert and a token
  that does, \<open>guess_chord\<close> returns \<open>Unknown\<close>: sorting \<^verbatim>\<open>None\<close> together with an integer
  raises inside the \<^verbatim>\<open>try\<close> block.
\<close>

theorem mixed_tokens_unknown:
  assumes bad: "bad \<in> set notes" "note_to_semitone (clean_note bad) = None"
    and good: "good \<in> set notes" "note_to_semitone (clean_note good) = Some v"
  shows "guess_chord notes = Inr ''Unknown''"
proof -
  let ?vals = "map note_to_semitone (map clean_note notes)"
  from bad have n: "None \<in> set ?vals" by force
  from good have s: "Some v \<in> set ?vals" by force
  from n s have "{None, Some v} \<subseteq> set ?vals" by simp
  then have "card {None, Some v} \<le> card (set ?vals)"
    by (intro card_mono) simp_all
  then have c: "\<not> card (set ?vals) \<le> 1" by simp
  with n have sem: "sorted_set ?vals = Inl TypeError"
    by (simp add: sorted_set_by_set)
  from bad good have "bad \<noteq> good" by auto
  with bad(1) good(1) have "notes \<noteq> [] \<and> length notes \<noteq> 1"
    by (cases "notes") auto
  with sem show ?thesis
    by (simp add: guess_chord_def calculate_intervals_def)
qed

theorem mixed_tokens_unknown_witness:
  "guess_chord [''C'', ''E'', ''Z9''] = Inr ''Unknown''"
proof -
  have b: "note_to_semitone (clean_note ''Z9'') = None" by code_simp
  have g: "note_to_semitone (clean_note ''C'') = Some 0" by code_simp
  show ?thesis
    by (rule mixed_tokens_unknown [OF _ b _ g]) simp_all
qed

text \<open>
  C6. For an input whose tokens all convert to a pitch set \<open>S\<close> of at least three values,
  the result is that of the first pair of a root of \<open>S\<close>, in ascending order, and a
  catalog entry, in declaration order, whose interval list truncated to the length of
  the signature equals the signature: the root's name, a space and the chord type;
  \<open>Unknown\<close> when there is no such pair. The dominant seventh on C is \<open>C 7\<close>.
\<close>

theorem catalog_first_match:
  assumes conv: "map note_to_semitone (map clean_note notes) = map Some ints"
    and S: "S = sort (remdups ints)"
    and len: "3 \<le> length S"
  shows "guess_chord notes =
           Inr (case first_match S of
                  None \<Rightarrow> ''Unknown''
                | Some (r, chord_type, pattern) \<Rightarrow>
                    canonical_notes ! nat (r mod 12) @ '' '' @ chord_type) \<and>
         guess_chord [''C'', ''E'', ''G'', ''Bb''] = Inr ''C 7''"
proof
  have "length S \<le> length ints"
    unfolding S by (simp add: length_remdups_leq)
  also have "length ints = length notes"
    using arg_cong [OF conv, of length] by simp
  finally have n: "3 \<le> length notes" using len by simp
  then have g: "guess_chord notes = calculate_intervals notes"
    by (auto simp: guess_chord_def)
  have sem: "sorted_set (map note_to_semitone (map clean_note notes)) = Inr (map Some S)"
    unfolding conv S by (rule sorted_set_Some)
  from len have l2: "length (map Some S) \<noteq> 2" by simp
  from n have ne: "notes \<noteq> []" by auto
  show "guess_chord notes =
           Inr (case first_match S of
                  None \<Rightarrow> ''Unknown''
                | Some (r, chord_type, pattern) \<Rightarrow>
                    canonical_notes ! nat (r mod 12) @ '' '' @ chord_type)"
    unfolding g calculate_intervals_def Let_def sem first_match_def
    using ne l2
    by (simp add: try_roots_first_match [OF len] special_cases_def split: option.splits)
  show "guess_chord [''C'', ''E'', ''G'', ''Bb''] = Inr ''C 7''"
    by code_simp
qed

theorem catalog_first_match_witness:
  "guess_chord [''G'', ''B'', ''D''] = Inr ''G Major'' \<and>
   first_match [2, 7, 11] = Some (7, ''Major'', [0, 4, 7])"
proof -
  have h1: "map note_to_semitone (map clean_note [''G'', ''B'', ''D'']) = map Some [7, 11, 2]"
    by code_simp
  have h2: "[2, 7, 11] = sort (remdups [7, 11, 2 :: int])"
    by code_simp
  have h3: "3 \<le> length [2, 7, 11 :: int]"
    by simp
  have fm: "first_match [2, 7, 11] = Some (7, ''Major'', [0, 4, 7])"
    by code_simp
  have cn: "canonical_notes ! nat (7 mod 12) = ''G''"
    by code_simp
  from catalog_first_match [OF h1 h2 h3] fm cn show ?thesis
    by simp
qed

text \<open>
  C7. For an input whose tokens convert to exactly two distinct semitones \<open>s0 < s1\<close>, no
  catalog entry matches, and the result is decided by \<open>(s1 - s0) mod 12\<close> with \<open>s0\<close> as
  the root: 7 gives the power chord, 4 and 3 the bare thirds, anything else \<open>Unknown\<close>.
\<close>

theorem two_note_special_cases:
  assumes conv: "map note_to_semitone (map clean_note notes) = map Some ints"
    and S: "sort (remdups ints) = [s0, s1]"
  shows "try_roots [Some s0, Some s1] [Some s0, Some s1] = Inr None \<and>
         guess_chord notes =
           Inr (let interval = (s1 - s0) mod 12;
                    root_note = canonical_notes ! nat (s0 mod 12)
                in if interval = 7 then root_note @ '' 5''
                   else if interval = 4 then root_note @ '' (no fifth)''
                   else if interval = 3 then root_note @ '' Minor (no fifth)''
                   else ''Unknown'') \<and>
         guess_chord [''C'', ''G''] = Inr ''C 5''"
proof (intro conjI)
  have "length [s0, s1] \<le> length ints"
    unfolding S [symmetric] by (simp add: length_remdups_leq)
  also have "length ints = length notes"
    using arg_cong [OF conv, of length] by simp
  finally have n: "2 \<le> length notes" by simp
  then have g: "guess_chord notes = calculate_intervals notes"
    by (auto simp: guess_chord_def)
  from n have ne: "notes \<noteq> []" by auto
  have sem: "sorted_set (map note_to_semitone (map clean_note notes)) = Inr [Some s0, Some s1]"
    unfolding conv by (simp add: sorted_set_Some S)
  have "try_roots (map Some [s0, s1]) (map Some [s0, s1]) = Inr None"
    by (rule try_roots_short) simp
  then show tr: "try_roots [Some s0, Some s1] [Some s0, Some s1] = Inr None"
    by simp
  show "guess_chord notes =
           Inr (let interval = (s1 - s0) mod 12;
                    root_note = canonical_notes ! nat (s0 mod 12)
                in if interval = 7 then root_note @ '' 5''
                   else if interval = 4 then root_note @ '' (no fifth)''
                   else if interval = 3 then root_note @ '' Minor (no fifth)''
                   else ''Unknown'')"
  proof -
    have "calculate_intervals notes = special_cases [Some s0, Some s1]"
      using ne by (simp only: calculate_intervals_def Let_def sem tr if_False sum.case option.case)
    then show ?thesis
      by (simp add: g special_cases_def Let_def)
  qed
  show "guess_chord [''C'', ''G''] = Inr ''C 5''"
    by code_simp
qed

theorem two_note_special_cases_witness:
  "guess_chord [''Ab'', ''E'', ''Ab''] = Inr ''E (no fifth)''"
proof -
  have h1: "map note_to_semitone (map clean_note [''Ab'', ''E'', ''Ab'']) = map Some [8, 4, 8]"
    by code_simp
  have h2: "sort (remdups [8, 4, 8 :: int]) = [4, 8]"
    by code_simp
  have cn: "canonical_notes ! nat (4 mod 12) = ''E''"
    by code_simp
  note two_note_special_cases [OF h1 h2, THEN conjunct2, THEN conjunct1]
  with cn show ?thesis
    by simp
qed

text \<open>
  C8. \<open>guess_chord\<close> never returns a label whose chord type is \<open>9\<close>, \<open>m9\<close> or \<open>Maj9\<close>,
  and the catalog comparison never selects one of these entries for a signature.
\<close>

theorem ninth_chords_never_returned:
  "guess_chord notes \<noteq> Inr (root_note @ '' 9'') \<and>
   guess_chord notes \<noteq> Inr (root_note @ '' m9'') \<and>
   guess_chord notes \<noteq> Inr (root_note @ '' Maj9'') \<and>
   match_pattern (signature S r) chord_intervals \<noteq> Some ''9'' \<and>
   match_pattern (signature S r) chord_intervals \<noteq> Some ''m9'' \<and>
   match_pattern (signature S r) chord_intervals \<noteq> Some ''Maj9''"
proof -
  have g: "guess_chord notes \<noteq> Inr (x @ [c, CHR ''9''])" for x c
    using guess_chord_last [of "notes" "x @ [c, CHR ''9'']"] by auto
  have b: "\<forall>x\<in>set (signature S r). x < 12"
    by (simp add: signature_def)
  have m: "match_pattern (signature S r) chord_intervals \<noteq> Some t" if "t \<notin> set early_types" for t
    using match_pattern_early [OF b] that by blast
  have "guess_chord notes \<noteq> Inr (root_note @ '' 9'')"
    using g [of root_note "CHR '' ''"] by simp
  moreover have "guess_chord notes \<noteq> Inr (root_note @ '' m9'')"
    using g [of "root_note @ '' ''" "CHR ''m''"] by simp
  moreover have "guess_chord notes \<noteq> Inr (root_note @ '' Maj9'')"
    using g [of "root_note @ '' Ma''" "CHR ''j''"] by simp
  moreover have "match_pattern (signature S r) chord_intervals \<noteq> Some ''9''"
    by (rule m) (simp add: early_types_def chord_intervals_def)
  moreover have "match_pattern (signature S r) chord_intervals \<noteq> Some ''m9''"
    by (rule m) (simp add: early_types_def chord_intervals_def)
  moreover have "match_pattern (signature S r) chord_intervals \<noteq> Some ''Maj9''"
    by (rule m) (simp add: early_types_def chord_intervals_def)
  ultimately show ?thesis by blast
qed

text \<open>
  C9. \<open>normalize_note\<close> applied twice gives back each of the ten spellings of the
  enharmonic table, and leaves each natural note name as it is.
\<close>

theorem normalize_note_involution:
  "(x \<in> set (map fst enharmonic_map) \<longrightarrow> normalize_note (normalize_note x) = x) \<and>
   (x \<in> {''C'', ''D'', ''E'', ''F'', ''G'', ''A'', ''B''} \<longrightarrow> normalize_note x = x)"
  by (auto simp: normalize_note_def enharmonic_map_def)

theorem normalize_note_involution_witness:
  "''Bb'' \<in> set (map fst enharmonic_map) \<and> normalize_note (normalize_note ''Bb'') = ''Bb'' \<and>
   normalize_note ''C'' = ''C''"
  using normalize_note_involution [of "''Bb''"] normalize_note_involution [of "''C''"]
  by (simp add: enharmonic_map_def)

text \<open>
  C10. For a one-element list \<open>[p]\<close>, \<open>guess_chord\<close> returns \<open>p\<close> followed by
  \<open>(single note)\<close>, with \<open>p\<close> as given: not normalized, not stripped, not validated.
\<close>

theorem guess_chord_single_note:
  "guess_chord [p] = Inr (p @ '' (single note)'') \<and>
   guess_chord [''G#(Ab)''] = Inr ''G#(Ab) (single note)'' \<and>
   guess_chord [''Zzz''] = Inr ''Zzz (single note)''"
  by (simp add: guess_chord_def)

end
